theory Spec2Isabelle
  imports Complex_Main
begin

section \<open>JavaScript values used by the form\<close>

text \<open>
  A JavaScript number is an IEEE double: not-a-number, one of the two infinities, or a
  finite value. Every finite double is a real number and the comparisons of the language
  on finite doubles are the comparisons of the reals, so a finite number carries its
  real value (both zeros are \<open>Finite 0\<close>).
\<close>

datatype number = NaN | NegInf | Finite real | PosInf

text \<open>The value an input of the form holds: \<open>undefined\<close> or the text of the control.\<close>

datatype jsvalue = Undefined | Str string

text \<open>The relational operators \<open><\<close> and \<open><=\<close> on numbers: false as soon as an operand is NaN.\<close>

fun js_lt :: "number \<Rightarrow> number \<Rightarrow> bool" where
  "js_lt NaN _ = False"
| "js_lt _ NaN = False"
| "js_lt (Finite x) (Finite y) = (x < y)"
| "js_lt NegInf NegInf = False"
| "js_lt NegInf _ = True"
| "js_lt _ NegInf = False"
| "js_lt PosInf _ = False"
| "js_lt _ PosInf = True"

definition js_le :: "number \<Rightarrow> number \<Rightarrow> bool" where
  "js_le a b = (a \<noteq> NaN \<and> b \<noteq> NaN \<and> \<not> js_lt b a)"

text \<open>
  \<open>Number(v)\<close>: \<open>undefined\<close> converts to NaN. The conversion of a string to a number
  (the StringToNumber operation of the language, with its rounding to a double) is a
  primitive of the platform and is taken as the parameter \<open>S2N\<close>.
\<close>

definition Number :: "(string \<Rightarrow> number) \<Rightarrow> jsvalue \<Rightarrow> number" where
  "Number S2N v = (case v of Undefined \<Rightarrow> NaN | Str s \<Rightarrow> S2N s)"

subsection \<open>Characters and strings\<close>

text \<open>
  Text is a list of 8-bit characters read as ASCII; a character above 127 is neither a
  letter nor white space here, and no case conversion touches it.
\<close>

definition isWhiteSpace :: "char \<Rightarrow> bool" where
  "isWhiteSpace c = (c \<in> set [CHR 0x09, CHR 0x0A, CHR 0x0B, CHR 0x0C, CHR 0x0D, CHR 0x20])"

definition isLineTerminator :: "char \<Rightarrow> bool" where
  "isLineTerminator c = (c \<in> set [CHR 0x0A, CHR 0x0D])"

definition toUpperCase_char :: "char \<Rightarrow> char" where
  "toUpperCase_char c =
     (let n = (of_char c :: nat) in if 97 \<le> n \<and> n \<le> 122 then char_of (n - 32) else c)"

definition toLowerCase_char :: "char \<Rightarrow> char" where
  "toLowerCase_char c =
     (let n = (of_char c :: nat) in if 65 \<le> n \<and> n \<le> 90 then char_of (n + 32) else c)"

definition toUpperCase :: "string \<Rightarrow> string" where
  "toUpperCase s = map toUpperCase_char s"

text \<open>\<open>s.trim()\<close>: white space and line terminators are removed from both ends.\<close>

definition trim :: "string \<Rightarrow> string" where
  "trim s = rev (dropWhile isWhiteSpace (rev (dropWhile isWhiteSpace s)))"

subsection \<open>Regular expressions\<close>

text \<open>
  The patterns of the schema are anchored at both ends (\<open>^ ... $\<close>, no multiline flag),
  so \<open>test\<close> is a match of the whole string. A pattern is its negative lookaheads
  (all of them stand at the start), its body and the ignore-case flag. Matching is by
  derivatives.
\<close>

datatype citem = Ch char | Rng char char | WS

datatype regex =
    Zero
  | One
  | Sym "citem list"
  | Dot
  | Alt regex regex
  | Seq regex regex
  | Star regex

definition Plus :: "regex \<Rightarrow> regex" where
  "Plus r = Seq r (Star r)"

record pattern =
  lookaheads :: "regex list"
  body :: regex
  ignoreCase :: bool

fun item_has :: "citem \<Rightarrow> char \<Rightarrow> bool" where
  "item_has (Ch a) c = (c = a)"
| "item_has (Rng lo hi) c = ((of_char lo :: nat) \<le> of_char c \<and> (of_char c :: nat) \<le> of_char hi)"
| "item_has WS c = isWhiteSpace c"

definition class_has :: "bool \<Rightarrow> citem list \<Rightarrow> char \<Rightarrow> bool" where
  "class_has i cls c =
     (list_ex (\<lambda>it. item_has it c) cls \<or>
      (i \<and> (list_ex (\<lambda>it. item_has it (toUpperCase_char c)) cls \<or>
            list_ex (\<lambda>it. item_has it (toLowerCase_char c)) cls)))"

fun nullable :: "regex \<Rightarrow> bool" where
  "nullable Zero = False"
| "nullable One = True"
| "nullable (Sym _) = False"
| "nullable Dot = False"
| "nullable (Alt r s) = (nullable r \<or> nullable s)"
| "nullable (Seq r s) = (nullable r \<and> nullable s)"
| "nullable (Star r) = True"

fun deriv :: "bool \<Rightarrow> char \<Rightarrow> regex \<Rightarrow> regex" where
  "deriv i c Zero = Zero"
| "deriv i c One = Zero"
| "deriv i c (Sym cls) = (if class_has i cls c then One else Zero)"
| "deriv i c Dot = (if isLineTerminator c then Zero else One)"
| "deriv i c (Alt r s) = Alt (deriv i c r) (deriv i c s)"
| "deriv i c (Seq r s) =
     (if nullable r then Alt (Seq (deriv i c r) s) (deriv i c s) else Seq (deriv i c r) s)"
| "deriv i c (Star r) = Seq (deriv i c r) (Star r)"

fun matches :: "bool \<Rightarrow> regex \<Rightarrow> string \<Rightarrow> bool" where
  "matches i r [] = nullable r"
| "matches i r (c # cs) = matches i (deriv i c r) cs"

text \<open>Some prefix of the string matches (what a lookahead asks for).\<close>

fun ahead :: "bool \<Rightarrow> regex \<Rightarrow> string \<Rightarrow> bool" where
  "ahead i r [] = nullable r"
| "ahead i r (c # cs) = (nullable r \<or> ahead i (deriv i c r) cs)"

definition test :: "pattern \<Rightarrow> string \<Rightarrow> bool" where
  "test p s =
     (list_all (\<lambda>la. \<not> ahead (ignoreCase p) la s) (lookaheads p) \<and>
      matches (ignoreCase p) (body p) s)"

section \<open>The validation library\<close>

text \<open>
  A string schema of the library is a list of checks run in the order of the chain that
  built it. A check either adds an issue (its message) or, for \<open>trim\<close>, replaces the
  data the later checks and the output see. All checks run; the parse is accepted when
  no issue was added.
\<close>

datatype check =
    StrTrim
  | StrMin nat string
  | StrMax nat string
  | StrRegex pattern string
  | StrEmail string

text \<open>
  The library's pattern for e-mail addresses:
  \<^verbatim>\<open>/^(?!\.)(?!.*\.\.)([A-Z0-9_'+\-\.]*)[A-Z0-9_+-]@([A-Z0-9][A-Z0-9\-]*\.)+[A-Z]{2,}$/i\<close>
\<close>

definition emailRegex :: pattern where
  "emailRegex =
     \<lparr>lookaheads =
        [Sym [Ch CHR ''.''],
         Seq (Star Dot) (Seq (Sym [Ch CHR ''.'']) (Sym [Ch CHR ''.'']))],
      body =
        Seq (Star (Sym [Rng CHR ''A'' CHR ''Z'', Rng CHR ''0'' CHR ''9'', Ch CHR ''_'',
                        Ch (CHR 0x27), Ch CHR ''+'', Ch CHR ''-'', Ch CHR ''.'']))
       (Seq (Sym [Rng CHR ''A'' CHR ''Z'', Rng CHR ''0'' CHR ''9'', Ch CHR ''_'',
                  Ch CHR ''+'', Ch CHR ''-''])
       (Seq (Sym [Ch CHR ''@''])
       (Seq (Plus (Seq (Sym [Rng CHR ''A'' CHR ''Z'', Rng CHR ''0'' CHR ''9''])
                  (Seq (Star (Sym [Rng CHR ''A'' CHR ''Z'', Rng CHR ''0'' CHR ''9'',
                                   Ch CHR ''-'']))
                       (Sym [Ch CHR ''.'']))))
       (Seq (Sym [Rng CHR ''A'' CHR ''Z''])
       (Seq (Sym [Rng CHR ''A'' CHR ''Z''])
            (Star (Sym [Rng CHR ''A'' CHR ''Z'']))))))),
      ignoreCase = True\<rparr>"

fun string_check :: "check \<Rightarrow> string list \<times> string \<Rightarrow> string list \<times> string" where
  "string_check StrTrim (iss, d) = (iss, trim d)"
| "string_check (StrMin n m) (iss, d) = (if length d < n then iss @ [m] else iss, d)"
| "string_check (StrMax n m) (iss, d) = (if length d > n then iss @ [m] else iss, d)"
| "string_check (StrRegex p m) (iss, d) = (if \<not> test p d then iss @ [m] else iss, d)"
| "string_check (StrEmail m) (iss, d) = (if \<not> test emailRegex d then iss @ [m] else iss, d)"

definition ZodString :: "check list \<Rightarrow> string \<Rightarrow> string list \<times> string" where
  "ZodString checks raw = foldl (\<lambda>acc c. string_check c acc) ([], raw) checks"

text \<open>
  A number schema: \<open>min\<close> and \<open>max\<close> checks with their bound, whether the bound itself
  is allowed, and their message. \<open>positive(m)\<close> is the exclusive minimum 0 and
  \<open>max(v, m)\<close> the inclusive maximum \<open>v\<close>.
\<close>

datatype ncheck = NumMin real bool string | NumMax real bool string

definition positive :: "string \<Rightarrow> ncheck" where
  "positive m = NumMin 0 False m"

definition max_incl :: "real \<Rightarrow> string \<Rightarrow> ncheck" where
  "max_incl v m = NumMax v True m"

fun number_check :: "ncheck \<Rightarrow> string list \<times> number \<Rightarrow> string list \<times> number" where
  "number_check (NumMin v inclusive m) (iss, d) =
     (if (if inclusive then js_lt d (Finite v) else js_le d (Finite v)) then iss @ [m] else iss, d)"
| "number_check (NumMax v inclusive m) (iss, d) =
     (if (if inclusive then js_lt (Finite v) d else js_le (Finite v) d) then iss @ [m] else iss, d)"

text \<open>
  \<open>z.coerce.number\<close>: the input is replaced by \<open>Number(input)\<close>; NaN is not of type
  number, which ends the parse with the type error; otherwise the checks run.
\<close>

definition ZodNumber_coerce ::
    "(string \<Rightarrow> number) \<Rightarrow> string \<Rightarrow> ncheck list \<Rightarrow> jsvalue \<Rightarrow> string list \<times> number" where
  "ZodNumber_coerce S2N invalid_type_error checks raw =
     (let d = Number S2N raw in
      if d = NaN then ([invalid_type_error], d)
      else foldl (\<lambda>acc c. number_check c acc) ([], d) checks)"

section \<open>The schema of the form\<close>

record 'a FormFields =
  amount :: 'a
  name :: string
  taxid :: string
  nationality :: string
  email :: string

text \<open>What the form holds, and what the schema gives out (the type \<open>FormValues\<close>).\<close>

type_synonym FormInput = "jsvalue FormFields"
type_synonym FormValues = "number FormFields"

definition name_regex :: pattern where
  "name_regex =
     \<lparr>lookaheads = [],
      body = Plus (Sym [Rng CHR ''a'' CHR ''z'', Rng CHR ''A'' CHR ''Z'', WS,
                        Ch (CHR 0x27), Ch CHR ''-'']),
      ignoreCase = False\<rparr>"

definition taxid_regex :: pattern where
  "taxid_regex =
     \<lparr>lookaheads = [],
      body = Plus (Sym [Rng CHR ''A'' CHR ''Z'', Rng CHR ''0'' CHR ''9'']),
      ignoreCase = True\<rparr>"

definition amount_schema :: "(string \<Rightarrow> number) \<Rightarrow> jsvalue \<Rightarrow> string list \<times> number" where
  "amount_schema S2N =
     ZodNumber_coerce S2N ''Amount must be a valid number''
       [positive ''Amount must be greater than 0'',
        max_incl 10000000 ''Amount cannot exceed 10,000,000'']"

definition name_schema :: "string \<Rightarrow> string list \<times> string" where
  "name_schema =
     ZodString
       [StrTrim,
        StrMin 2 ''Name must be at least 2 characters'',
        StrMax 100 ''Name must be less than 100 characters'',
        StrRegex name_regex ''Name can only contain letters, spaces, hyphens, and apostrophes'']"

definition taxid_schema :: "string \<Rightarrow> string list \<times> string" where
  "taxid_schema =
     ZodString
       [StrTrim,
        StrMin 5 ''Tax ID must be at least 5 characters'',
        StrMax 20 ''Tax ID must be less than 20 characters'',
        StrRegex taxid_regex ''Tax ID can only contain letters and numbers'']"

definition nationality_schema :: "string \<Rightarrow> string list \<times> string" where
  "nationality_schema = ZodString [StrMin 1 ''Please select your nationality'']"

definition email_schema :: "string \<Rightarrow> string list \<times> string" where
  "email_schema =
     ZodString
       [StrTrim,
        StrEmail ''Please enter a valid email address'',
        StrMax 255 ''Email must be less than 255 characters'']"

text \<open>
  The object schema parses every field, gathers the issues under the field's name, and
  gives out the parsed record only when there is no issue.
\<close>

definition formSchema :: "(string \<Rightarrow> number) \<Rightarrow> FormInput \<Rightarrow> (string \<times> string) list + FormValues" where
  "formSchema S2N v =
     (let a = amount_schema S2N (amount v);
          n = name_schema (name v);
          t = taxid_schema (taxid v);
          c = nationality_schema (nationality v);
          e = email_schema (email v);
          issues = map (Pair ''amount'') (fst a) @ map (Pair ''name'') (fst n) @
                   map (Pair ''taxid'') (fst t) @ map (Pair ''nationality'') (fst c) @
                   map (Pair ''email'') (fst e)
      in if issues = [] then
           Inr \<lparr>amount = snd a, name = snd n, taxid = snd t, nationality = snd c, email = snd e\<rparr>
         else Inl issues)"

definition nationalities :: "string list" where
  "nationalities =
     [''american'', ''british'', ''canadian'', ''chinese'', ''french'', ''german'',
      ''indian'', ''italian'', ''japanese'', ''spanish'', ''other'']"

section \<open>The form component\<close>

text \<open>
  The resolver of the form library runs the schema on the values of the form. It hands
  back the parsed record, or for every field with an issue the first of its messages.
\<close>

fun firstErrors :: "(string \<times> string) list \<Rightarrow> (string \<times> string) list" where
  "firstErrors [] = []"
| "firstErrors ((k, m) # xs) = (k, m) # firstErrors (filter (\<lambda>e. fst e \<noteq> k) xs)"

definition zodResolver :: "(string \<Rightarrow> number) \<Rightarrow> FormInput \<Rightarrow> (string \<times> string) list + FormValues" where
  "zodResolver S2N v =
     (case formSchema S2N v of Inl issues \<Rightarrow> Inl (firstErrors issues) | Inr d \<Rightarrow> Inr d)"

definition defaultValues :: FormInput where
  "defaultValues = \<lparr>amount = Undefined, name = [], taxid = [], nationality = [], email = []\<rparr>"

text \<open>
  \<open>JSON.stringify\<close> of the parsed record. The document is kept as a tree, the members in
  the order of the schema; its text is not modelled.
\<close>

datatype json = JNumber number | JString string | JObject "(string \<times> json) list"

definition JSON_stringify :: "FormValues \<Rightarrow> json" where
  "JSON_stringify d =
     JObject [(''amount'', JNumber (amount d)), (''name'', JString (name d)),
              (''taxid'', JString (taxid d)), (''nationality'', JString (nationality d)),
              (''email'', JString (email d))]"

record request =
  url :: string
  http_method :: string
  headers :: "(string \<times> string) list"
  body :: json

datatype notice = ToastSuccess string string | ToastError string string

text \<open>How the \<open>fetch\<close> settles: a response with \<open>ok\<close> true or false, or a rejected promise.\<close>

datatype outcome = Ok | NotOk | Rejected

text \<open>
  The state of the component: its two flags, the values the form holds, and what it has
  done to the outside: the requests it has issued (\<open>sent\<close>), those of them not settled
  yet (\<open>outstanding\<close>), the notices, the console lines, and the delays (in ms) of the
  timeouts that are set and have not fired; every timeout carries the same callback.
  The inline error messages of the form library are not part of the state.
\<close>

record state =
  isSubmitting :: bool
  isSuccess :: bool
  form :: FormInput
  sent :: "request list"
  outstanding :: "request list"
  toasts :: "notice list"
  console :: "string list"
  timers :: "nat list"

definition initial :: state where
  "initial =
     \<lparr>isSubmitting = False, isSuccess = False, form = defaultValues, sent = [],
      outstanding = [], toasts = [], console = [], timers = []\<rparr>"

text \<open>
  \<open>onSubmit\<close> is an asynchronous function with one \<open>await\<close>. Its first part runs up to the
  \<open>fetch\<close>, its second part when the \<open>fetch\<close> has settled: the \<open>try\<close> block goes on after
  a response that is ok, the \<open>catch\<close> block runs after the \<open>throw\<close> for a response that
  is not ok and after a rejection, and \<open>finally\<close> runs in every case.
\<close>

definition submit_request :: "FormValues \<Rightarrow> request" where
  "submit_request d =
     \<lparr>url = ''https://api.example.com/v1/form/submit'', http_method = ''POST'',
      headers = [(''Content-Type'', ''application/json'')], body = JSON_stringify d\<rparr>"

definition onSubmit :: "FormValues \<Rightarrow> state \<Rightarrow> state" where
  "onSubmit d st =
     st\<lparr>isSubmitting := True,
        sent := sent st @ [submit_request d],
        outstanding := outstanding st @ [submit_request d]\<rparr>"

definition reset_timeout :: "state \<Rightarrow> state" where
  "reset_timeout st = st\<lparr>form := defaultValues, isSuccess := False\<rparr>"

definition onSubmit_settled :: "outcome \<Rightarrow> state \<Rightarrow> state" where
  "onSubmit_settled r st =
     (let st1 =
        (case r of
           Ok \<Rightarrow>
             st\<lparr>isSuccess := True,
                toasts := toasts st @
                  [ToastSuccess ''Application Submitted''
                     ''Your credit application has been received successfully.''],
                timers := timers st @ [3000]\<rparr>
         | _ \<Rightarrow>
             st\<lparr>toasts := toasts st @
                  [ToastError ''Submission Failed''
                     ''Unable to submit your application. Please try again.''],
                console := console st @ [''Form submission error:'']\<rparr>)
      in st1\<lparr>isSubmitting := False\<rparr>)"

text \<open>\<open>form.handleSubmit(onSubmit)\<close>: the resolver runs, and \<open>onSubmit\<close> is called with the
  parsed record only when the resolver reports no error.\<close>

definition handleSubmit :: "(string \<Rightarrow> number) \<Rightarrow> state \<Rightarrow> state" where
  "handleSubmit S2N st =
     (case zodResolver S2N (form st) of Inl errs \<Rightarrow> st | Inr d \<Rightarrow> onSubmit d st)"

text \<open>
  What can happen to the component. The form is rendered only while \<open>isSuccess\<close> is
  false, so no input changes and nothing is submitted while it is true. The submit
  button is disabled while \<open>isSubmitting\<close> is true. The select offers the items of
  \<open>nationalities\<close> and no other value. Each event is handled in one step: the state the
  controls show is the state of the component.
\<close>

datatype event =
    ChangeAmount string
  | ChangeName string
  | ChangeTaxid string
  | SelectNationality string
  | ChangeEmail string
  | Submit
  | Settle outcome
  | Timeout

fun step :: "(string \<Rightarrow> number) \<Rightarrow> state \<Rightarrow> event \<Rightarrow> state" where
  "step S2N st (ChangeAmount s) =
     (if isSuccess st then st else st\<lparr>form := (form st)\<lparr>amount := Str s\<rparr>\<rparr>)"
| "step S2N st (ChangeName s) =
     (if isSuccess st then st else st\<lparr>form := (form st)\<lparr>name := s\<rparr>\<rparr>)"
| "step S2N st (ChangeTaxid s) =
     (if isSuccess st then st else st\<lparr>form := (form st)\<lparr>taxid := toUpperCase s\<rparr>\<rparr>)"
| "step S2N st (SelectNationality s) =
     (if isSuccess st \<or> s \<notin> set nationalities then st
      else st\<lparr>form := (form st)\<lparr>nationality := s\<rparr>\<rparr>)"
| "step S2N st (ChangeEmail s) =
     (if isSuccess st then st else st\<lparr>form := (form st)\<lparr>email := s\<rparr>\<rparr>)"
| "step S2N st Submit =
     (if isSuccess st \<or> isSubmitting st then st else handleSubmit S2N st)"
| "step S2N st (Settle r) =
     (case outstanding st of
        [] \<Rightarrow> st
      | req # rest \<Rightarrow> onSubmit_settled r (st\<lparr>outstanding := rest\<rparr>))"
| "step S2N st Timeout =
     (case timers st of
        [] \<Rightarrow> st
      | d # rest \<Rightarrow> reset_timeout (st\<lparr>timers := rest\<rparr>))"

definition run :: "(string \<Rightarrow> number) \<Rightarrow> event list \<Rightarrow> state" where
  "run S2N evs = foldl (step S2N) initial evs"

text \<open>
  The constraints of the schema's chains, read on the record the schema gives out: the
  bounds of every field, with the patterns of the name, the tax id and the e-mail address.
\<close>

definition field_constraints :: "FormValues \<Rightarrow> bool" where
  "field_constraints d =
     (js_lt (Finite 0) (amount d) \<and> js_le (amount d) (Finite 10000000) \<and>
      2 \<le> length (name d) \<and> length (name d) \<le> 100 \<and> test name_regex (name d) \<and>
      5 \<le> length (taxid d) \<and> length (taxid d) \<le> 20 \<and> test taxid_regex (taxid d) \<and>
      1 \<le> length (nationality d) \<and>
      test emailRegex (email d) \<and> length (email d) \<le> 255)"

section \<open>Strings: trimming and upper case\<close>

lemma dropWhile_fixed: "xs = [] \<or> \<not> P (hd xs) \<Longrightarrow> dropWhile P xs = xs"
  by (cases xs) auto

lemma dropWhile_hd: "dropWhile P xs = [] \<or> \<not> P (hd (dropWhile P xs))"
  using hd_dropWhile by blast

lemma hd_dropWhile_rev:
  assumes "\<not> P (hd xs)" "xs \<noteq> []"
  shows "rev (dropWhile P (rev xs)) \<noteq> [] \<and> hd (rev (dropWhile P (rev xs))) = hd xs"
proof -
  obtain x ys where xs: "xs = x # ys" using assms(2) by (cases xs) auto
  have "dropWhile P (rev ys @ [x]) = dropWhile P (rev ys) @ (if \<forall>y\<in>set (rev ys). P y then dropWhile P [x] else [x])"
    by (simp add: dropWhile_append)
  with assms(1) xs show ?thesis by (auto simp: dropWhile_append)
qed

lemma trim_trim: "trim (trim s) = trim s"
proof -
  define t where "t = dropWhile isWhiteSpace s"
  define u where "u = rev (dropWhile isWhiteSpace (rev t))"
  have t: "t = [] \<or> \<not> isWhiteSpace (hd t)"
    unfolding t_def by (rule dropWhile_hd)
  have u: "u = [] \<or> \<not> isWhiteSpace (hd u)"
  proof (cases "t = []")
    case True then show ?thesis by (simp add: u_def)
  next
    case False
    with t have "\<not> isWhiteSpace (hd t)" by simp
    from hd_dropWhile_rev[of isWhiteSpace t, OF this False] show ?thesis unfolding u_def using \<open>\<not> isWhiteSpace (hd t)\<close> by simp
  qed
  have ru: "rev u = [] \<or> \<not> isWhiteSpace (hd (rev u))"
    unfolding u_def using dropWhile_hd[of isWhiteSpace "rev t"] by simp
  have "trim s = u" by (simp add: trim_def t_def u_def)
  moreover have "trim u = u"
    unfolding trim_def using dropWhile_fixed[where P=isWhiteSpace and xs=u, OF u]
      dropWhile_fixed[where P=isWhiteSpace and xs="rev u", OF ru] by simp
  ultimately show ?thesis by simp
qed

lemma set_trim: "set (trim s) \<subseteq> set s"
proof -
  have "set (trim s) \<subseteq> set (dropWhile isWhiteSpace s)"
    unfolding trim_def using set_dropWhileD by fastforce
  also have "\<dots> \<subseteq> set s" using set_dropWhileD by fastforce
  finally show ?thesis .
qed

lemma toUpperCase_char_idem: "toUpperCase_char (toUpperCase_char c) = toUpperCase_char c"
  by (auto simp: toUpperCase_char_def Let_def)

lemma toUpperCase_idem: "toUpperCase (toUpperCase s) = toUpperCase s"
  by (simp add: toUpperCase_def toUpperCase_char_idem)

lemma toUpperCase_fixed_iff: "toUpperCase s = s \<longleftrightarrow> (\<forall>c\<in>set s. toUpperCase_char c = c)"
  by (simp add: toUpperCase_def map_idI) (metis map_eq_conv map_ident)

lemma toUpperCase_trim: "toUpperCase s = s \<Longrightarrow> toUpperCase (trim s) = trim s"
  using set_trim[of s] by (auto simp: toUpperCase_fixed_iff)

section \<open>What each field schema computes\<close>

lemma name_schema_eq:
  "name_schema raw =
     ((if length (trim raw) < 2 then [''Name must be at least 2 characters''] else []) @
      (if length (trim raw) > 100 then [''Name must be less than 100 characters''] else []) @
      (if \<not> test name_regex (trim raw)
       then [''Name can only contain letters, spaces, hyphens, and apostrophes''] else []),
      trim raw)"
  by (simp add: name_schema_def ZodString_def)

lemma taxid_schema_eq:
  "taxid_schema raw =
     ((if length (trim raw) < 5 then [''Tax ID must be at least 5 characters''] else []) @
      (if length (trim raw) > 20 then [''Tax ID must be less than 20 characters''] else []) @
      (if \<not> test taxid_regex (trim raw)
       then [''Tax ID can only contain letters and numbers''] else []),
      trim raw)"
  by (simp add: taxid_schema_def ZodString_def)

lemma email_schema_eq:
  "email_schema raw =
     ((if \<not> test emailRegex (trim raw) then [''Please enter a valid email address''] else []) @
      (if length (trim raw) > 255 then [''Email must be less than 255 characters''] else []),
      trim raw)"
  by (simp add: email_schema_def ZodString_def)

lemma nationality_schema_eq:
  "nationality_schema raw =
     (if length raw < 1 then [''Please select your nationality''] else [], raw)"
  by (simp add: nationality_schema_def ZodString_def)

lemma amount_schema_eq:
  "amount_schema S2N v =
     (if Number S2N v = NaN then [''Amount must be a valid number'']
      else (if js_le (Number S2N v) (Finite 0) then [''Amount must be greater than 0''] else []) @
           (if js_lt (Finite 10000000) (Number S2N v)
            then [''Amount cannot exceed 10,000,000''] else []),
      Number S2N v)"
  by (simp add: amount_schema_def ZodNumber_coerce_def positive_def max_incl_def Let_def)

lemma amount_accepted:
  "fst (amount_schema S2N v) = [] \<longleftrightarrow> (\<exists>x. Number S2N v = Finite x \<and> 0 < x \<and> x \<le> 10000000)"
  by (cases "Number S2N v") (auto simp: amount_schema_eq js_le_def)

lemma formSchema_Inr:
  "formSchema S2N v = Inr d \<longleftrightarrow>
     (fst (amount_schema S2N (amount v)) = [] \<and> fst (name_schema (name v)) = [] \<and>
      fst (taxid_schema (taxid v)) = [] \<and> fst (nationality_schema (nationality v)) = [] \<and>
      fst (email_schema (email v)) = [] \<and>
      d = \<lparr>amount = Number S2N (amount v), name = trim (name v), taxid = trim (taxid v),
           nationality = nationality v, email = trim (email v)\<rparr>)"
  unfolding formSchema_def Let_def
  by (simp add: amount_schema_eq name_schema_eq taxid_schema_eq email_schema_eq nationality_schema_eq) metis

lemma zodResolver_Inr: "zodResolver S2N v = Inr d \<longleftrightarrow> formSchema S2N v = Inr d"
  by (simp add: zodResolver_def split: sum.splits)

section \<open>Invariants of the component\<close>

lemma run_snoc: "run S2N (evs @ [e]) = step S2N (run S2N evs) e"
  by (simp add: run_def)

lemma run_Nil: "run S2N [] = initial"
  by (simp add: run_def)

lemma step_flags:
  assumes "isSubmitting st \<longleftrightarrow> outstanding st \<noteq> []" and "length (outstanding st) \<le> 1"
    and "isSuccess st \<longleftrightarrow> timers st \<noteq> []" and "length (timers st) \<le> 1"
    and "\<not> (isSubmitting st \<and> isSuccess st)"
  shows "(isSubmitting (step S2N st e) \<longleftrightarrow> outstanding (step S2N st e) \<noteq> []) \<and>
         length (outstanding (step S2N st e)) \<le> 1 \<and>
         (isSuccess (step S2N st e) \<longleftrightarrow> timers (step S2N st e) \<noteq> []) \<and>
         length (timers (step S2N st e)) \<le> 1 \<and>
         \<not> (isSubmitting (step S2N st e) \<and> isSuccess (step S2N st e))"
proof (cases e)
  case Submit
  with assms show ?thesis
    by (auto simp: handleSubmit_def onSubmit_def split: sum.splits)
next
  case (Settle r)
  with assms show ?thesis
    by (cases "outstanding st"; cases r) (auto simp: onSubmit_settled_def)
next
  case Timeout
  with assms show ?thesis
    by (cases "timers st") (auto simp: reset_timeout_def)
qed (use assms in auto)

lemma run_flags:
  "(isSubmitting (run S2N evs) \<longleftrightarrow> outstanding (run S2N evs) \<noteq> []) \<and>
   length (outstanding (run S2N evs)) \<le> 1 \<and>
   (isSuccess (run S2N evs) \<longleftrightarrow> timers (run S2N evs) \<noteq> []) \<and>
   length (timers (run S2N evs)) \<le> 1 \<and>
   \<not> (isSubmitting (run S2N evs) \<and> isSuccess (run S2N evs))"
proof (induction evs rule: rev_induct)
  case Nil
  show ?case by (simp add: run_Nil initial_def)
next
  case (snoc e evs)
  then show ?case
    unfolding run_snoc by (intro step_flags) blast+
qed

lemma step_other_sent: "e \<noteq> Submit \<Longrightarrow> sent (step S2N st e) = sent st"
  by (cases e) (auto simp: onSubmit_settled_def reset_timeout_def split: list.splits outcome.splits)

lemma step_Submit_cases:
  "step S2N st Submit = st \<and> (isSuccess st \<or> isSubmitting st \<or> (\<exists>errs. zodResolver S2N (form st) = Inl errs)) \<or>
   (\<exists>d. formSchema S2N (form st) = Inr d \<and> \<not> isSuccess st \<and> \<not> isSubmitting st \<and>
        step S2N st Submit = onSubmit d st)"
proof (cases "zodResolver S2N (form st)")
  case (Inl errs)
  then show ?thesis by (simp add: handleSubmit_def)
next
  case (Inr d)
  then have "formSchema S2N (form st) = Inr d" by (simp add: zodResolver_Inr)
  with Inr show ?thesis by (simp add: handleSubmit_def)
qed

lemma step_taxid_upper:
  assumes "toUpperCase (taxid (form st)) = taxid (form st)"
  shows "toUpperCase (taxid (form (step S2N st e))) = taxid (form (step S2N st e))"
proof (cases e)
  case Submit
  with assms show ?thesis
    by (auto simp: handleSubmit_def onSubmit_def split: sum.splits)
next
  case (Settle r)
  with assms show ?thesis
    by (cases "outstanding st"; cases r) (auto simp: onSubmit_settled_def)
next
  case Timeout
  with assms show ?thesis
    by (cases "timers st") (auto simp: reset_timeout_def defaultValues_def toUpperCase_def)
qed (use assms in \<open>auto simp: toUpperCase_idem\<close>)

lemma run_taxid_upper: "toUpperCase (taxid (form (run S2N evs))) = taxid (form (run S2N evs))"
proof (induction evs rule: rev_induct)
  case Nil
  show ?case by (simp add: run_Nil initial_def defaultValues_def toUpperCase_def)
next
  case (snoc e evs)
  then show ?case unfolding run_snoc by (rule step_taxid_upper)
qed

lemma step_nationality:
  assumes "nationality (form st) = [] \<or> nationality (form st) \<in> set nationalities"
  shows "nationality (form (step S2N st e)) = [] \<or> nationality (form (step S2N st e)) \<in> set nationalities"
proof (cases e)
  case Submit
  with assms show ?thesis
    by (auto simp: handleSubmit_def onSubmit_def split: sum.splits)
next
  case (Settle r)
  with assms show ?thesis
    by (cases "outstanding st"; cases r) (auto simp: onSubmit_settled_def)
next
  case Timeout
  with assms show ?thesis
    by (cases "timers st") (auto simp: reset_timeout_def defaultValues_def)
next
  case (SelectNationality s)
  with assms show ?thesis by auto
qed (use assms in auto)

lemma run_nationality:
  "nationality (form (run S2N evs)) = [] \<or> nationality (form (run S2N evs)) \<in> set nationalities"
proof (induction evs rule: rev_induct)
  case Nil
  show ?case by (simp add: run_Nil initial_def defaultValues_def)
next
  case (snoc e evs)
  then show ?case unfolding run_snoc by (rule step_nationality)
qed

lemma formSchema_constraints:
  assumes "formSchema S2N v = Inr d"
  shows "field_constraints d \<and> fst (name_schema (name d)) = [] \<and> fst (taxid_schema (taxid d)) = [] \<and>
         fst (nationality_schema (nationality d)) = [] \<and> fst (email_schema (email d)) = []"
proof -
  from assms have acc: "fst (amount_schema S2N (amount v)) = []" "fst (name_schema (name v)) = []"
      "fst (taxid_schema (taxid v)) = []" "fst (nationality_schema (nationality v)) = []"
      "fst (email_schema (email v)) = []"
    and d: "d = \<lparr>amount = Number S2N (amount v), name = trim (name v), taxid = trim (taxid v),
           nationality = nationality v, email = trim (email v)\<rparr>"
    by (simp_all add: formSchema_Inr)
  from acc(1) obtain x where x: "Number S2N (amount v) = Finite x" "0 < x" "x \<le> 10000000"
    unfolding amount_accepted by blast
  have n: "2 \<le> length (trim (name v)) \<and> length (trim (name v)) \<le> 100 \<and> test name_regex (trim (name v))"
    using acc(2) by (auto simp: name_schema_eq split: if_splits)
  have t: "5 \<le> length (trim (taxid v)) \<and> length (trim (taxid v)) \<le> 20 \<and> test taxid_regex (trim (taxid v))"
    using acc(3) by (auto simp: taxid_schema_eq split: if_splits)
  have c: "1 \<le> length (nationality v)"
    using acc(4) by (cases "nationality v") (auto simp: nationality_schema_eq split: if_splits)
  have e: "test emailRegex (trim (email v)) \<and> length (trim (email v)) \<le> 255"
    using acc(5) by (auto simp: email_schema_eq split: if_splits)
  have "field_constraints d"
    unfolding field_constraints_def d using x n t c e by (simp add: js_le_def)
  moreover have "fst (name_schema (name d)) = []"
    unfolding d using n by (simp add: name_schema_eq trim_trim)
  moreover have "fst (taxid_schema (taxid d)) = []"
    unfolding d using t by (simp add: taxid_schema_eq trim_trim)
  moreover have "fst (nationality_schema (nationality d)) = []"
    using acc(4) by (simp add: d)
  moreover have "fst (email_schema (email d)) = []"
    unfolding d using e by (simp add: email_schema_eq trim_trim)
  ultimately show ?thesis by blast
qed

lemma run_sent_constraints:
  "\<forall>q \<in> set (sent (run S2N evs)). \<exists>d. q = submit_request d \<and> field_constraints d"
proof (induction evs rule: rev_induct)
  case Nil
  show ?case by (simp add: run_Nil initial_def)
next
  case (snoc e evs)
  show ?case
  proof (cases "e = Submit")
    case False
    with snoc show ?thesis by (simp add: run_snoc step_other_sent)
  next
    case True
    from step_Submit_cases[of S2N "run S2N evs"] show ?thesis
    proof
      assume "step S2N (run S2N evs) Submit = run S2N evs \<and>
        (isSuccess (run S2N evs) \<or> isSubmitting (run S2N evs) \<or>
         (\<exists>errs. zodResolver S2N (form (run S2N evs)) = Inl errs))"
      with snoc True show ?thesis by (simp add: run_snoc)
    next
      assume "\<exists>d. formSchema S2N (form (run S2N evs)) = Inr d \<and> \<not> isSuccess (run S2N evs) \<and>
        \<not> isSubmitting (run S2N evs) \<and> step S2N (run S2N evs) Submit = onSubmit d (run S2N evs)"
      then obtain d where d: "formSchema S2N (form (run S2N evs)) = Inr d"
        and s: "step S2N (run S2N evs) Submit = onSubmit d (run S2N evs)" by blast
      from formSchema_constraints[OF d] have "field_constraints d" by simp
      with snoc True s show ?thesis by (auto simp: run_snoc onSubmit_def)
    qed
  qed
qed

section \<open>The claims\<close>

text \<open>
  Claim C1, as amended. The schema of the nationality field is a string with a minimum
  length of 1: it accepts a value exactly when the value is not empty, and gives it out
  unchanged. Membership in the list \<open>nationalities\<close> is not checked by the schema. Every
  item of the list is accepted, and the select of the form stores no other value than
  an item of the list, so the nationality of the form is empty or an item of the list,
  and a record that the resolver accepts from the form has a listed nationality.
\<close>

theorem nationality_accepted_iff_nonempty:
  "(fst (nationality_schema s) = [] \<longleftrightarrow> s \<noteq> []) \<and>
   (\<forall>n \<in> set nationalities. fst (nationality_schema n) = []) \<and>
   (nationality (form (run S2N evs)) = [] \<or>
    nationality (form (run S2N evs)) \<in> set nationalities) \<and>
   (\<forall>d. zodResolver S2N (form (run S2N evs)) = Inr d \<longrightarrow> nationality d \<in> set nationalities)"
proof -
  have a: "fst (nationality_schema s) = [] \<longleftrightarrow> s \<noteq> []" for s
    by (cases s) (simp_all add: nationality_schema_eq)
  have b: "\<forall>n \<in> set nationalities. fst (nationality_schema n) = []"
    unfolding a by (simp add: nationalities_def)
  have c: "nationality d \<in> set nationalities"
    if "zodResolver S2N (form (run S2N evs)) = Inr d" for d
  proof -
    from that have f: "formSchema S2N (form (run S2N evs)) = Inr d"
      by (simp add: zodResolver_Inr)
    then have "nationality (form (run S2N evs)) \<noteq> []" and "nationality d = nationality (form (run S2N evs))"
      by (simp_all add: formSchema_Inr a)
    with run_nationality[of S2N evs] show ?thesis by simp
  qed
  from a b c run_nationality[of S2N evs] show ?thesis by blast
qed

theorem nationality_accepted_iff_nonempty_witness:
  "fst (nationality_schema ''other'') = [] \<and>
   nationality (form (run (\<lambda>s. if s = ''1500.00'' then Finite 1500 else NaN) [SelectNationality ''other'', SelectNationality ''martian''])) = ''other'' \<and>
   zodResolver (\<lambda>s. if s = ''1500.00'' then Finite 1500 else NaN) (form (run (\<lambda>s. if s = ''1500.00'' then Finite 1500 else NaN)
     [ChangeAmount ''1500.00'', ChangeName ''John Doe'', ChangeTaxid ''ab123456c'',
      SelectNationality ''american'', ChangeEmail ''john@x.com''])) =
     Inr \<lparr>amount = Finite 1500, name = ''John Doe'', taxid = ''AB123456C'',
        nationality = ''american'', email = ''john@x.com''\<rparr> \<and>
   nationality \<lparr>amount = Finite 1500, name = ''John Doe'', taxid = ''AB123456C'',
        nationality = ''american'', email = ''john@x.com''\<rparr> \<in> set nationalities"
proof -
  have a: "nationality (form (run (\<lambda>s. if s = ''1500.00'' then Finite 1500 else NaN) [SelectNationality ''other'', SelectNationality ''martian''])) = ''other''"
    by code_simp
  have b: "zodResolver (\<lambda>s. if s = ''1500.00'' then Finite 1500 else NaN) (form (run (\<lambda>s. if s = ''1500.00'' then Finite 1500 else NaN)
     [ChangeAmount ''1500.00'', ChangeName ''John Doe'', ChangeTaxid ''ab123456c'',
      SelectNationality ''american'', ChangeEmail ''john@x.com''])) =
     Inr \<lparr>amount = Finite 1500, name = ''John Doe'', taxid = ''AB123456C'',
        nationality = ''american'', email = ''john@x.com''\<rparr>"
    by code_simp
  from nationality_accepted_iff_nonempty[of "''other''" "\<lambda>s. if s = ''1500.00'' then Finite 1500 else NaN"
      "[ChangeAmount ''1500.00'', ChangeName ''John Doe'', ChangeTaxid ''ab123456c'',
      SelectNationality ''american'', ChangeEmail ''john@x.com'']"] a b
  show ?thesis by simp
qed

text \<open>
  Claim C1 as stated (the schema accepts the nationality only when it is in the list)
  fails: the schema accepts \<open>martian\<close>, which is not in the list, as a field and within a
  whole record.
\<close>

theorem nationality_outside_set_accepted:
  "fst (nationality_schema ''martian'') = [] \<and> ''martian'' \<notin> set nationalities \<and>
   formSchema (\<lambda>s. Finite 1500)
     \<lparr>amount = Str ''1500.00'', name = ''John Doe'', taxid = ''AB123456C'',
      nationality = ''martian'', email = ''john@x.com''\<rparr> =
   Inr \<lparr>amount = Finite 1500, name = ''John Doe'', taxid = ''AB123456C'',
        nationality = ''martian'', email = ''john@x.com''\<rparr>"
  by code_simp

text \<open>
  Claim C2. Let \<open>a\<close> be the amount after the coercion to a number. The amount field is
  accepted exactly when \<open>0 < a\<close> and \<open>a \<le> 10000000\<close> (comparisons of the language, false
  on NaN); it is rejected if \<open>a \<le> 0\<close> or \<open>a > 10000000\<close>; for a finite \<open>a\<close> these are the
  comparisons of the reals. A rejected amount makes the schema reject the record, and
  the amount given out is \<open>a\<close>.
\<close>

theorem amount_accepted_iff_in_range:
  assumes "Number S2N (amount r) = a"
  shows "(fst (amount_schema S2N (amount r)) = [] \<longleftrightarrow> js_lt (Finite 0) a \<and> js_le a (Finite 10000000)) \<and>
         (js_le a (Finite 0) \<or> js_lt (Finite 10000000) a \<longrightarrow> fst (amount_schema S2N (amount r)) \<noteq> []) \<and>
         (\<forall>x. a = Finite x \<longrightarrow> (fst (amount_schema S2N (amount r)) = [] \<longleftrightarrow> 0 < x \<and> x \<le> 10000000)) \<and>
         (fst (amount_schema S2N (amount r)) \<noteq> [] \<longrightarrow> (\<exists>issues. formSchema S2N r = Inl issues)) \<and>
         snd (amount_schema S2N (amount r)) = a"
proof -
  have acc: "fst (amount_schema S2N (amount r)) = [] \<longleftrightarrow> js_lt (Finite 0) a \<and> js_le a (Finite 10000000)"
    using assms by (cases a) (auto simp: amount_schema_eq js_le_def)
  have rej: "fst (amount_schema S2N (amount r)) \<noteq> []" if "js_le a (Finite 0) \<or> js_lt (Finite 10000000) a"
    using that unfolding acc by (cases a) (auto simp: js_le_def)
  have fin: "fst (amount_schema S2N (amount r)) = [] \<longleftrightarrow> 0 < x \<and> x \<le> 10000000" if "a = Finite x" for x
    using that unfolding acc by (simp add: js_le_def not_less)
  have obj: "\<exists>issues. formSchema S2N r = Inl issues" if "fst (amount_schema S2N (amount r)) \<noteq> []"
  proof (cases "formSchema S2N r")
    case (Inr d)
    with that show ?thesis by (simp add: formSchema_Inr)
  qed simp
  have out: "snd (amount_schema S2N (amount r)) = a"
    using assms by (simp add: amount_schema_eq)
  from acc rej fin obj out show ?thesis by blast
qed

theorem amount_accepted_iff_in_range_witness:
  "Number (\<lambda>s. Finite 0) (amount (defaultValues\<lparr>amount := Str ''0''\<rparr>)) = Finite 0 \<and>
   fst (amount_schema (\<lambda>s. Finite 0) (amount (defaultValues\<lparr>amount := Str ''0''\<rparr>))) \<noteq> [] \<and>
   js_le (Finite 0) (Finite 0)"
proof -
  have n: "Number (\<lambda>s. Finite 0) (amount (defaultValues\<lparr>amount := Str ''0''\<rparr>)) = Finite 0"
    by (simp add: Number_def defaultValues_def)
  have le: "js_le (Finite 0) (Finite 0)" by (simp add: js_le_def)
  from amount_accepted_iff_in_range[OF n] le n show ?thesis by blast
qed



text \<open>
  Claim C4. A change of the tax id input to \<open>s\<close> stores \<open>toUpperCase s\<close> in the form; the
  schema of the field then runs on \<open>toUpperCase s\<close>, and a record accepted from that form
  carries \<open>trim (toUpperCase s)\<close>. In every state the component reaches the stored tax
  id is in upper case, and so is the tax id of every record the resolver accepts.
\<close>

theorem taxid_uppercased_before_validation:
  "(\<not> isSuccess st \<longrightarrow>
      taxid (form (step S2N st (ChangeTaxid s))) = toUpperCase s \<and>
      taxid_schema (taxid (form (step S2N st (ChangeTaxid s)))) = taxid_schema (toUpperCase s) \<and>
      (\<forall>d. zodResolver S2N (form (step S2N st (ChangeTaxid s))) = Inr d \<longrightarrow>
           taxid d = trim (toUpperCase s))) \<and>
   toUpperCase (taxid (form (run S2N evs))) = taxid (form (run S2N evs)) \<and>
   (\<forall>d. zodResolver S2N (form (run S2N evs)) = Inr d \<longrightarrow> toUpperCase (taxid d) = taxid d)"
proof -
  have a: "taxid (form (step S2N st (ChangeTaxid s))) = toUpperCase s" if "\<not> isSuccess st"
    using that by simp
  have b: "taxid d = trim (toUpperCase s)"
    if "\<not> isSuccess st" "zodResolver S2N (form (step S2N st (ChangeTaxid s))) = Inr d" for d
    using that by (simp add: zodResolver_Inr formSchema_Inr)
  have c: "toUpperCase (taxid d) = taxid d" if "zodResolver S2N (form (run S2N evs)) = Inr d" for d
  proof -
    from that have "taxid d = trim (taxid (form (run S2N evs)))"
      by (simp add: zodResolver_Inr formSchema_Inr)
    with toUpperCase_trim[OF run_taxid_upper[of S2N evs]] show ?thesis by simp
  qed
  from a b c run_taxid_upper[of S2N evs] show ?thesis by simp
qed

theorem taxid_uppercased_before_validation_witness:
  "\<not> isSuccess initial \<and>
   taxid (form (step (\<lambda>s. if s = ''1500.00'' then Finite 1500 else NaN) initial (ChangeTaxid ''ab123456c''))) = ''AB123456C'' \<and>
   zodResolver (\<lambda>s. if s = ''1500.00'' then Finite 1500 else NaN) (form (run (\<lambda>s. if s = ''1500.00'' then Finite 1500 else NaN)
     [ChangeAmount ''1500.00'', ChangeName ''John Doe'', ChangeTaxid ''ab123456c'',
      SelectNationality ''american'', ChangeEmail ''john@x.com''])) =
     Inr \<lparr>amount = Finite 1500, name = ''John Doe'', taxid = ''AB123456C'',
        nationality = ''american'', email = ''john@x.com''\<rparr> \<and>
   toUpperCase (taxid \<lparr>amount = Finite 1500, name = ''John Doe'', taxid = ''AB123456C'',
        nationality = ''american'', email = ''john@x.com''\<rparr>) = ''AB123456C''"
proof -
  have h: "\<not> isSuccess initial" by (simp add: initial_def)
  have up: "toUpperCase ''ab123456c'' = ''AB123456C''" by code_simp
  have b: "zodResolver (\<lambda>s. if s = ''1500.00'' then Finite 1500 else NaN) (form (run (\<lambda>s. if s = ''1500.00'' then Finite 1500 else NaN)
     [ChangeAmount ''1500.00'', ChangeName ''John Doe'', ChangeTaxid ''ab123456c'',
      SelectNationality ''american'', ChangeEmail ''john@x.com''])) =
     Inr \<lparr>amount = Finite 1500, name = ''John Doe'', taxid = ''AB123456C'',
        nationality = ''american'', email = ''john@x.com''\<rparr>"
    by code_simp
  from taxid_uppercased_before_validation[of initial "\<lambda>s. if s = ''1500.00'' then Finite 1500 else NaN" "''ab123456c''"
      "[ChangeAmount ''1500.00'', ChangeName ''John Doe'', ChangeTaxid ''ab123456c'',
      SelectNationality ''american'', ChangeEmail ''john@x.com'']"] h b
  show ?thesis by (simp add: up)
qed

text \<open>
  Claim C5. A submit in a state that is not submitting issues a request; when that
  request fails (a response that is not ok, or a rejected \<open>fetch\<close>), the form holds the
  values it held when submit was pressed, \<open>isSubmitting\<close> and \<open>isSuccess\<close> are false, no
  request is outstanding, the error notice is shown, and a submit right away issues the
  same request again. In any state, a failed request leaves the values of the form as
  they are.
\<close>

theorem transport_failure_keeps_form:
  assumes r: "r = NotOk \<or> r = Rejected"
    and idle: "\<not> isSubmitting (run S2N evs)"
    and sub: "isSubmitting (run S2N (evs @ [Submit]))"
  shows "form (run S2N (evs @ [Submit, Settle r])) = form (run S2N evs) \<and>
         \<not> isSubmitting (run S2N (evs @ [Submit, Settle r])) \<and>
         \<not> isSuccess (run S2N (evs @ [Submit, Settle r])) \<and>
         outstanding (run S2N (evs @ [Submit, Settle r])) = [] \<and>
         toasts (run S2N (evs @ [Submit, Settle r])) =
           toasts (run S2N evs) @
             [ToastError ''Submission Failed''
                ''Unable to submit your application. Please try again.''] \<and>
         isSubmitting (run S2N (evs @ [Submit, Settle r, Submit])) \<and>
         (\<exists>d. formSchema S2N (form (run S2N evs)) = Inr d \<and>
              sent (run S2N (evs @ [Submit, Settle r, Submit])) =
                sent (run S2N evs) @ [submit_request d, submit_request d]) \<and>
         (\<forall>st. form (step S2N st (Settle r)) = form st)"
proof -
  define st0 where "st0 = run S2N evs"
  have r1: "run S2N (evs @ [Submit]) = step S2N st0 Submit"
    by (simp add: run_snoc st0_def)
  from idle sub have "step S2N st0 Submit \<noteq> st0" unfolding r1 st0_def by auto
  with step_Submit_cases[of S2N st0]
  obtain d where d: "formSchema S2N (form st0) = Inr d" and ns: "\<not> isSuccess st0"
    and s1: "step S2N st0 Submit = onSubmit d st0" by blast
  from run_flags[of S2N evs] idle have o0: "outstanding st0 = []" by (simp add: st0_def)
  define st2 where "st2 = step S2N (onSubmit d st0) (Settle r)"
  have r2: "run S2N (evs @ [Submit, Settle r]) = st2"
    unfolding st2_def s1[symmetric] r1[symmetric]
    using run_snoc[of S2N "evs @ [Submit]" "Settle r"]
    by (simp only: append_assoc append_Cons append_Nil)
  have st2: "st2 = st0\<lparr>sent := sent st0 @ [submit_request d],
        toasts := toasts st0 @ [ToastError ''Submission Failed''
                ''Unable to submit your application. Please try again.''],
        console := console st0 @ [''Form submission error:'']\<rparr>"
    unfolding st2_def using r o0 idle by (auto simp: onSubmit_def onSubmit_settled_def st0_def)
  have z: "zodResolver S2N (form st0) = Inr d" using d by (simp add: zodResolver_Inr)
  have "run S2N (evs @ [Submit, Settle r, Submit]) = step S2N st2 Submit"
    unfolding r2[symmetric] using run_snoc[of S2N "evs @ [Submit, Settle r]" Submit]
    by (simp only: append_assoc append_Cons append_Nil)
  also have "\<dots> = onSubmit d st2"
    using ns idle z by (simp add: st2 handleSubmit_def st0_def)
  finally have r3: "run S2N (evs @ [Submit, Settle r, Submit]) = onSubmit d st2" .
  have all: "form (step S2N st (Settle r)) = form st" for st
    using r by (cases "outstanding st") (auto simp: onSubmit_settled_def)
  show ?thesis
    unfolding r2 r3 using d ns idle o0 all
    by (auto simp: st2 onSubmit_def st0_def)
qed

theorem transport_failure_keeps_form_witness:
  "\<not> isSubmitting (run (\<lambda>s. if s = ''1500.00'' then Finite 1500 else NaN)
     [ChangeAmount ''1500.00'', ChangeName ''John Doe'', ChangeTaxid ''ab123456c'',
      SelectNationality ''american'', ChangeEmail ''john@x.com'']) \<and>
   isSubmitting (run (\<lambda>s. if s = ''1500.00'' then Finite 1500 else NaN)
     ([ChangeAmount ''1500.00'', ChangeName ''John Doe'', ChangeTaxid ''ab123456c'',
      SelectNationality ''american'', ChangeEmail ''john@x.com''] @ [Submit])) \<and>
   form (run (\<lambda>s. if s = ''1500.00'' then Finite 1500 else NaN)
     ([ChangeAmount ''1500.00'', ChangeName ''John Doe'', ChangeTaxid ''ab123456c'',
      SelectNationality ''american'', ChangeEmail ''john@x.com''] @ [Submit, Settle NotOk])) = form (run (\<lambda>s. if s = ''1500.00'' then Finite 1500 else NaN)
     [ChangeAmount ''1500.00'', ChangeName ''John Doe'', ChangeTaxid ''ab123456c'',
      SelectNationality ''american'', ChangeEmail ''john@x.com'']) \<and>
   isSubmitting (run (\<lambda>s. if s = ''1500.00'' then Finite 1500 else NaN)
     ([ChangeAmount ''1500.00'', ChangeName ''John Doe'', ChangeTaxid ''ab123456c'',
      SelectNationality ''american'', ChangeEmail ''john@x.com''] @ [Submit, Settle NotOk, Submit]))"
proof -
  have h1: "NotOk = NotOk \<or> NotOk = Rejected" by simp
  have h2: "\<not> isSubmitting (run (\<lambda>s. if s = ''1500.00'' then Finite 1500 else NaN)
     [ChangeAmount ''1500.00'', ChangeName ''John Doe'', ChangeTaxid ''ab123456c'',
      SelectNationality ''american'', ChangeEmail ''john@x.com''])" by code_simp
  have h3: "isSubmitting (run (\<lambda>s. if s = ''1500.00'' then Finite 1500 else NaN)
     ([ChangeAmount ''1500.00'', ChangeName ''John Doe'', ChangeTaxid ''ab123456c'',
      SelectNationality ''american'', ChangeEmail ''john@x.com''] @ [Submit]))" by code_simp
  from transport_failure_keeps_form[OF h1 h2 h3] h2 h3 show ?thesis by blast
qed

text \<open>
  Claim C6. When a submit changes the state at all, the schema has accepted the values
  of the form: the handler ran with the parsed record, \<open>isSubmitting\<close> is true, one POST
  with that record was issued, and every field of the record satisfies its constraint
  (the bounds and patterns of \<open>field_constraints\<close>; each string field passes its own
  schema again). No other event issues a request, and every request the component has
  issued carries a record that satisfies the constraints.
\<close>

theorem submitting_only_accepted_records:
  "(step S2N st Submit \<noteq> st \<longrightarrow>
      (\<exists>d. formSchema S2N (form st) = Inr d \<and> step S2N st Submit = onSubmit d st \<and>
           isSubmitting (step S2N st Submit) \<and>
           sent (step S2N st Submit) = sent st @ [submit_request d] \<and>
           field_constraints d \<and>
           fst (name_schema (name d)) = [] \<and> fst (taxid_schema (taxid d)) = [] \<and>
           fst (nationality_schema (nationality d)) = [] \<and> fst (email_schema (email d)) = [])) \<and>
   (\<forall>e. e \<noteq> Submit \<longrightarrow> sent (step S2N st e) = sent st) \<and>
   (\<forall>q \<in> set (sent (run S2N evs)). \<exists>d. q = submit_request d \<and> field_constraints d)"
proof -
  have "\<exists>d. formSchema S2N (form st) = Inr d \<and> step S2N st Submit = onSubmit d st \<and>
           isSubmitting (step S2N st Submit) \<and>
           sent (step S2N st Submit) = sent st @ [submit_request d] \<and>
           field_constraints d \<and>
           fst (name_schema (name d)) = [] \<and> fst (taxid_schema (taxid d)) = [] \<and>
           fst (nationality_schema (nationality d)) = [] \<and> fst (email_schema (email d)) = []"
    if "step S2N st Submit \<noteq> st"
  proof -
    from step_Submit_cases[of S2N st] that
    obtain d where d: "formSchema S2N (form st) = Inr d"
      and s: "step S2N st Submit = onSubmit d st" by blast
    from s have "isSubmitting (step S2N st Submit)"
      and "sent (step S2N st Submit) = sent st @ [submit_request d]"
      by (simp_all add: onSubmit_def)
    with d s formSchema_constraints[OF d] show ?thesis by blast
  qed
  with step_other_sent[of _ S2N st] run_sent_constraints[of S2N evs] show ?thesis by blast
qed

theorem submitting_only_accepted_records_witness:
  "step (\<lambda>s. if s = ''1500.00'' then Finite 1500 else NaN) (run (\<lambda>s. if s = ''1500.00'' then Finite 1500 else NaN)
     [ChangeAmount ''1500.00'', ChangeName ''John Doe'', ChangeTaxid ''ab123456c'',
      SelectNationality ''american'', ChangeEmail ''john@x.com'']) Submit \<noteq>
   run (\<lambda>s. if s = ''1500.00'' then Finite 1500 else NaN)
     [ChangeAmount ''1500.00'', ChangeName ''John Doe'', ChangeTaxid ''ab123456c'',
      SelectNationality ''american'', ChangeEmail ''john@x.com''] \<and>
   sent (run (\<lambda>s. if s = ''1500.00'' then Finite 1500 else NaN)
     [ChangeAmount ''1500.00'', ChangeName ''John Doe'', ChangeTaxid ''ab123456c'',
      SelectNationality ''american'', ChangeEmail ''john@x.com'', Submit]) =
     [submit_request \<lparr>amount = Finite 1500, name = ''John Doe'', taxid = ''AB123456C'',
        nationality = ''american'', email = ''john@x.com''\<rparr>] \<and>
   field_constraints \<lparr>amount = Finite 1500, name = ''John Doe'', taxid = ''AB123456C'',
        nationality = ''american'', email = ''john@x.com''\<rparr>"
proof -
  have a: "isSubmitting (step (\<lambda>s. if s = ''1500.00'' then Finite 1500 else NaN) (run (\<lambda>s. if s = ''1500.00'' then Finite 1500 else NaN)
     [ChangeAmount ''1500.00'', ChangeName ''John Doe'', ChangeTaxid ''ab123456c'',
      SelectNationality ''american'', ChangeEmail ''john@x.com'']) Submit)" by code_simp
  have b: "\<not> isSubmitting (run (\<lambda>s. if s = ''1500.00'' then Finite 1500 else NaN)
     [ChangeAmount ''1500.00'', ChangeName ''John Doe'', ChangeTaxid ''ab123456c'',
      SelectNationality ''american'', ChangeEmail ''john@x.com''])" by code_simp
  have c: "sent (run (\<lambda>s. if s = ''1500.00'' then Finite 1500 else NaN)
     [ChangeAmount ''1500.00'', ChangeName ''John Doe'', ChangeTaxid ''ab123456c'',
      SelectNationality ''american'', ChangeEmail ''john@x.com'', Submit]) =
     [submit_request \<lparr>amount = Finite 1500, name = ''John Doe'', taxid = ''AB123456C'',
        nationality = ''american'', email = ''john@x.com''\<rparr>]" by code_simp
  have f: "formSchema (\<lambda>s. if s = ''1500.00'' then Finite 1500 else NaN) (form (run (\<lambda>s. if s = ''1500.00'' then Finite 1500 else NaN)
     [ChangeAmount ''1500.00'', ChangeName ''John Doe'', ChangeTaxid ''ab123456c'',
      SelectNationality ''american'', ChangeEmail ''john@x.com''])) =
     Inr \<lparr>amount = Finite 1500, name = ''John Doe'', taxid = ''AB123456C'',
        nationality = ''american'', email = ''john@x.com''\<rparr>" by code_simp
  from a b have h: "step (\<lambda>s. if s = ''1500.00'' then Finite 1500 else NaN) (run (\<lambda>s. if s = ''1500.00'' then Finite 1500 else NaN)
     [ChangeAmount ''1500.00'', ChangeName ''John Doe'', ChangeTaxid ''ab123456c'',
      SelectNationality ''american'', ChangeEmail ''john@x.com'']) Submit \<noteq>
   run (\<lambda>s. if s = ''1500.00'' then Finite 1500 else NaN)
     [ChangeAmount ''1500.00'', ChangeName ''John Doe'', ChangeTaxid ''ab123456c'',
      SelectNationality ''american'', ChangeEmail ''john@x.com'']" by metis
  from submitting_only_accepted_records[of "\<lambda>s. if s = ''1500.00'' then Finite 1500 else NaN" "run (\<lambda>s. if s = ''1500.00'' then Finite 1500 else NaN)
     [ChangeAmount ''1500.00'', ChangeName ''John Doe'', ChangeTaxid ''ab123456c'',
      SelectNationality ''american'', ChangeEmail ''john@x.com'']"
     "[ChangeAmount ''1500.00'', ChangeName ''John Doe'', ChangeTaxid ''ab123456c'',
      SelectNationality ''american'', ChangeEmail ''john@x.com'', Submit]"] h
  obtain d where "formSchema (\<lambda>s. if s = ''1500.00'' then Finite 1500 else NaN) (form (run (\<lambda>s. if s = ''1500.00'' then Finite 1500 else NaN)
     [ChangeAmount ''1500.00'', ChangeName ''John Doe'', ChangeTaxid ''ab123456c'',
      SelectNationality ''american'', ChangeEmail ''john@x.com''])) = Inr d"
    and "field_constraints d" by blast
  with f have "field_constraints \<lparr>amount = Finite 1500, name = ''John Doe'', taxid = ''AB123456C'',
        nationality = ''american'', email = ''john@x.com''\<rparr>" by simp
  with h c show ?thesis by blast
qed

text \<open>
  Claim C7. With amount \<open>1500.00\<close> (a text that converts to the number 1500), name
  \<open>John Doe\<close>, tax id typed as \<open>ab123456c\<close>, nationality \<open>american\<close> and e-mail
  \<open>john@x.com\<close>: the stored tax id is \<open>AB123456C\<close>, the schema accepts the record, no
  request is issued before the submit, and the submit issues exactly one POST whose
  body is the JSON object of the five fields.
\<close>

theorem john_doe_example:
  assumes "S2N ''1500.00'' = Finite 1500"
  shows "taxid (form (run S2N
            [ChangeAmount ''1500.00'', ChangeName ''John Doe'', ChangeTaxid ''ab123456c'',
             SelectNationality ''american'', ChangeEmail ''john@x.com''])) = ''AB123456C'' \<and>
         formSchema S2N (form (run S2N
            [ChangeAmount ''1500.00'', ChangeName ''John Doe'', ChangeTaxid ''ab123456c'',
             SelectNationality ''american'', ChangeEmail ''john@x.com''])) =
           Inr \<lparr>amount = Finite 1500, name = ''John Doe'', taxid = ''AB123456C'',
                nationality = ''american'', email = ''john@x.com''\<rparr> \<and>
         sent (run S2N
            [ChangeAmount ''1500.00'', ChangeName ''John Doe'', ChangeTaxid ''ab123456c'',
             SelectNationality ''american'', ChangeEmail ''john@x.com'']) = [] \<and>
         sent (run S2N
            [ChangeAmount ''1500.00'', ChangeName ''John Doe'', ChangeTaxid ''ab123456c'',
             SelectNationality ''american'', ChangeEmail ''john@x.com'', Submit]) =
           [\<lparr>url = ''https://api.example.com/v1/form/submit'', http_method = ''POST'',
             headers = [(''Content-Type'', ''application/json'')],
             body = JObject [(''amount'', JNumber (Finite 1500)), (''name'', JString ''John Doe''),
                             (''taxid'', JString ''AB123456C''),
                             (''nationality'', JString ''american''),
                             (''email'', JString ''john@x.com'')]\<rparr>]"
proof -
  define f where "f = \<lparr>amount = Str ''1500.00'', name = ''John Doe'', taxid = ''AB123456C'',
                nationality = ''american'', email = ''john@x.com''\<rparr>"
  define d where "d = \<lparr>amount = Finite 1500, name = ''John Doe'', taxid = ''AB123456C'',
                nationality = ''american'', email = ''john@x.com''\<rparr>"
  have up: "toUpperCase ''ab123456c'' = ''AB123456C''" by code_simp
  have mem: "''american'' \<in> set nationalities" by code_simp
  have st: "run S2N
            [ChangeAmount ''1500.00'', ChangeName ''John Doe'', ChangeTaxid ''ab123456c'',
             SelectNationality ''american'', ChangeEmail ''john@x.com''] = initial\<lparr>form := f\<rparr>"
    unfolding run_def f_def by (simp add: initial_def defaultValues_def up mem)
  have n: "name_schema ''John Doe'' = ([], ''John Doe'')" by code_simp
  have t: "taxid_schema ''AB123456C'' = ([], ''AB123456C'')" by code_simp
  have c: "nationality_schema ''american'' = ([], ''american'')" by code_simp
  have e: "email_schema ''john@x.com'' = ([], ''john@x.com'')" by code_simp
  have a: "amount_schema S2N (Str ''1500.00'') = ([], Finite 1500)"
    using assms by (simp add: amount_schema_eq Number_def js_le_def)
  have fs: "formSchema S2N f = Inr d"
    unfolding formSchema_def f_def d_def by (simp add: n t c e a)
  have "run S2N
            ([ChangeAmount ''1500.00'', ChangeName ''John Doe'', ChangeTaxid ''ab123456c'',
             SelectNationality ''american'', ChangeEmail ''john@x.com''] @ [Submit]) =
        step S2N (initial\<lparr>form := f\<rparr>) Submit"
    unfolding run_snoc st ..
  also have "\<dots> = onSubmit d (initial\<lparr>form := f\<rparr>)"
    using fs by (simp add: handleSubmit_def zodResolver_def initial_def)
  finally have sub: "run S2N
            [ChangeAmount ''1500.00'', ChangeName ''John Doe'', ChangeTaxid ''ab123456c'',
             SelectNationality ''american'', ChangeEmail ''john@x.com'', Submit] =
        onSubmit d (initial\<lparr>form := f\<rparr>)" by simp
  show ?thesis
    unfolding sub unfolding st using fs
    by (simp add: onSubmit_def submit_request_def JSON_stringify_def initial_def f_def d_def)
qed

theorem john_doe_example_witness:
  "(\<lambda>s. if s = ''1500.00'' then Finite 1500 else NaN) ''1500.00'' = Finite 1500 \<and>
   length (sent (run (\<lambda>s. if s = ''1500.00'' then Finite 1500 else NaN)
            [ChangeAmount ''1500.00'', ChangeName ''John Doe'', ChangeTaxid ''ab123456c'',
             SelectNationality ''american'', ChangeEmail ''john@x.com'', Submit])) = 1"
proof -
  have h: "(\<lambda>s. if s = ''1500.00'' then Finite 1500 else NaN) ''1500.00'' = Finite 1500"
    by simp
  from john_doe_example[of "\<lambda>s. if s = ''1500.00'' then Finite 1500 else NaN", OF h] h
  show ?thesis by simp
qed

text \<open>
  Claim C8. When the request of a submitting state settles with a response that is ok,
  \<open>isSuccess\<close> is true, \<open>isSubmitting\<close> is false, the confirmation notice is shown and one
  timeout of 3000 ms is set; the values of the form are still there, and no event but
  the timeout changes the state. When the timeout fires the form holds its default
  values and \<open>isSuccess\<close> and \<open>isSubmitting\<close> are false.
\<close>

theorem success_then_reset:
  assumes "isSubmitting (run S2N evs)"
  shows "isSuccess (run S2N (evs @ [Settle Ok])) \<and>
         \<not> isSubmitting (run S2N (evs @ [Settle Ok])) \<and>
         toasts (run S2N (evs @ [Settle Ok])) =
           toasts (run S2N evs) @
             [ToastSuccess ''Application Submitted''
                ''Your credit application has been received successfully.''] \<and>
         timers (run S2N (evs @ [Settle Ok])) = [3000] \<and>
         form (run S2N (evs @ [Settle Ok])) = form (run S2N evs) \<and>
         (\<forall>e. e \<noteq> Timeout \<longrightarrow> step S2N (run S2N (evs @ [Settle Ok])) e = run S2N (evs @ [Settle Ok])) \<and>
         form (run S2N (evs @ [Settle Ok, Timeout])) = defaultValues \<and>
         \<not> isSuccess (run S2N (evs @ [Settle Ok, Timeout])) \<and>
         \<not> isSubmitting (run S2N (evs @ [Settle Ok, Timeout])) \<and>
         timers (run S2N (evs @ [Settle Ok, Timeout])) = [] \<and>
         outstanding (run S2N (evs @ [Settle Ok, Timeout])) = []"
proof -
  define st where "st = run S2N evs"
  from run_flags[of S2N evs] assms obtain q where
    o: "outstanding st = [q]" and t: "timers st = []" and ns: "\<not> isSuccess st"
    unfolding st_def by (cases "outstanding (run S2N evs)") auto
  define st1 where "st1 = step S2N st (Settle Ok)"
  have st1: "st1 = st\<lparr>outstanding := [], isSuccess := True,
      toasts := toasts st @ [ToastSuccess ''Application Submitted''
                ''Your credit application has been received successfully.''],
      timers := [3000], isSubmitting := False\<rparr>"
    unfolding st1_def using o t by (simp add: onSubmit_settled_def)
  have r1: "run S2N (evs @ [Settle Ok]) = st1" by (simp add: run_snoc st1_def st_def)
  have r2: "run S2N (evs @ [Settle Ok, Timeout]) = step S2N st1 Timeout"
    unfolding r1[symmetric] using run_snoc[of S2N "evs @ [Settle Ok]" Timeout]
    by (simp only: append_assoc append_Cons append_Nil)
  have quiet: "step S2N st1 e = st1" if "e \<noteq> Timeout" for e
    using that by (cases e) (simp_all add: st1)
  show ?thesis
    unfolding r2 r1 using quiet by (simp add: st1 reset_timeout_def st_def)
qed

theorem success_then_reset_witness:
  "isSubmitting (run (\<lambda>s. if s = ''1500.00'' then Finite 1500 else NaN)
     ([ChangeAmount ''1500.00'', ChangeName ''John Doe'', ChangeTaxid ''ab123456c'',
      SelectNationality ''american'', ChangeEmail ''john@x.com''] @ [Submit])) \<and>
   isSuccess (run (\<lambda>s. if s = ''1500.00'' then Finite 1500 else NaN)
     (([ChangeAmount ''1500.00'', ChangeName ''John Doe'', ChangeTaxid ''ab123456c'',
      SelectNationality ''american'', ChangeEmail ''john@x.com''] @ [Submit]) @ [Settle Ok])) \<and>
   form (run (\<lambda>s. if s = ''1500.00'' then Finite 1500 else NaN)
     (([ChangeAmount ''1500.00'', ChangeName ''John Doe'', ChangeTaxid ''ab123456c'',
      SelectNationality ''american'', ChangeEmail ''john@x.com''] @ [Submit]) @ [Settle Ok, Timeout])) = defaultValues"
proof -
  have h: "isSubmitting (run (\<lambda>s. if s = ''1500.00'' then Finite 1500 else NaN)
     ([ChangeAmount ''1500.00'', ChangeName ''John Doe'', ChangeTaxid ''ab123456c'',
      SelectNationality ''american'', ChangeEmail ''john@x.com''] @ [Submit]))" by code_simp
  from success_then_reset[OF h] h show ?thesis by blast
qed

text \<open>
  Claim C9. The schemas of the name, the tax id and the e-mail address give out the
  trimmed input, and accept exactly when the trimmed input is within the bounds on its
  length and matches the pattern; so a string whose trimmed length is out of bounds is
  rejected whatever its raw length. The record the schema gives out holds the trimmed
  values.
\<close>

theorem string_fields_validated_trimmed:
  "snd (name_schema raw) = trim raw \<and> snd (taxid_schema raw) = trim raw \<and>
   snd (email_schema raw) = trim raw \<and>
   (fst (name_schema raw) = [] \<longleftrightarrow>
      2 \<le> length (trim raw) \<and> length (trim raw) \<le> 100 \<and> test name_regex (trim raw)) \<and>
   (fst (taxid_schema raw) = [] \<longleftrightarrow>
      5 \<le> length (trim raw) \<and> length (trim raw) \<le> 20 \<and> test taxid_regex (trim raw)) \<and>
   (fst (email_schema raw) = [] \<longleftrightarrow>
      test emailRegex (trim raw) \<and> length (trim raw) \<le> 255) \<and>
   (\<forall>d. formSchema S2N v = Inr d \<longrightarrow>
      name d = trim (name v) \<and> taxid d = trim (taxid v) \<and> email d = trim (email v))"
proof -
  have "fst (name_schema raw) = [] \<longleftrightarrow>
      2 \<le> length (trim raw) \<and> length (trim raw) \<le> 100 \<and> test name_regex (trim raw)"
    by (auto simp: name_schema_eq)
  moreover have "fst (taxid_schema raw) = [] \<longleftrightarrow>
      5 \<le> length (trim raw) \<and> length (trim raw) \<le> 20 \<and> test taxid_regex (trim raw)"
    by (auto simp: taxid_schema_eq)
  moreover have "fst (email_schema raw) = [] \<longleftrightarrow>
      test emailRegex (trim raw) \<and> length (trim raw) \<le> 255"
    by (auto simp: email_schema_eq)
  moreover have "\<forall>d. formSchema S2N v = Inr d \<longrightarrow>
      name d = trim (name v) \<and> taxid d = trim (taxid v) \<and> email d = trim (email v)"
    by (simp add: formSchema_Inr)
  ultimately show ?thesis
    by (simp add: name_schema_eq taxid_schema_eq email_schema_eq)
qed

theorem string_fields_validated_trimmed_witness:
  "length ''  a  '' = 5 \<and> trim ''  a  '' = ''a'' \<and> fst (name_schema ''  a  '') \<noteq> [] \<and>
   snd (name_schema ''  a  '') = ''a'' \<and>
   length ''AB12   '' = 7 \<and> trim ''AB12   '' = ''AB12'' \<and> fst (taxid_schema ''AB12   '') \<noteq> [] \<and>
   formSchema (\<lambda>s. if s = ''1500.00'' then Finite 1500 else NaN)
     \<lparr>amount = Str ''1500.00'', name = '' John Doe'', taxid = ''AB123456C  '',
      nationality = ''american'', email = '' john@x.com ''\<rparr> =
   Inr \<lparr>amount = Finite 1500, name = ''John Doe'', taxid = ''AB123456C'',
        nationality = ''american'', email = ''john@x.com''\<rparr>"
proof -
  have 1: "trim ''  a  '' = ''a''" by code_simp
  have 2: "trim ''AB12   '' = ''AB12''" by code_simp
  have 3: "formSchema (\<lambda>s. if s = ''1500.00'' then Finite 1500 else NaN)
     \<lparr>amount = Str ''1500.00'', name = '' John Doe'', taxid = ''AB123456C  '',
      nationality = ''american'', email = '' john@x.com ''\<rparr> =
   Inr \<lparr>amount = Finite 1500, name = ''John Doe'', taxid = ''AB123456C'',
        nationality = ''american'', email = ''john@x.com''\<rparr>" by code_simp
  from string_fields_validated_trimmed[of "''  a  ''" "\<lambda>s. if s = ''1500.00'' then Finite 1500 else NaN"
     "\<lparr>amount = Str ''1500.00'', name = '' John Doe'', taxid = ''AB123456C  '',
      nationality = ''american'', email = '' john@x.com ''\<rparr>"]
       string_fields_validated_trimmed[of "''AB12   ''" "\<lambda>s. if s = ''1500.00'' then Finite 1500 else NaN" defaultValues] 3
  show ?thesis unfolding 1 2 by simp
qed

text \<open>
  Claim C10. When an outstanding request settles, with any outcome, \<open>isSubmitting\<close> is
  false afterwards; and after any history of the component that ends with a request
  settling, \<open>isSubmitting\<close> is false.
\<close>

theorem isSubmitting_false_after_settle:
  "(outstanding st \<noteq> [] \<longrightarrow> \<not> isSubmitting (step S2N st (Settle r))) \<and>
   \<not> isSubmitting (run S2N (evs @ [Settle r]))"
proof -
  have a: "\<not> isSubmitting (step S2N st (Settle r))" if "outstanding st \<noteq> []" for st
    using that by (cases "outstanding st") (auto simp: onSubmit_settled_def Let_def)
  have "\<not> isSubmitting (run S2N (evs @ [Settle r]))"
  proof (cases "outstanding (run S2N evs)")
    case Nil
    with run_flags[of S2N evs] show ?thesis by (simp add: run_snoc)
  next
    case (Cons q qs)
    then show ?thesis unfolding run_snoc by (intro a) simp
  qed
  with a show ?thesis by blast
qed

theorem isSubmitting_false_after_settle_witness:
  "outstanding (run (\<lambda>s. if s = ''1500.00'' then Finite 1500 else NaN)
     ([ChangeAmount ''1500.00'', ChangeName ''John Doe'', ChangeTaxid ''ab123456c'',
      SelectNationality ''american'', ChangeEmail ''john@x.com''] @ [Submit])) \<noteq> [] \<and>
   \<not> isSubmitting (step (\<lambda>s. if s = ''1500.00'' then Finite 1500 else NaN) (run (\<lambda>s. if s = ''1500.00'' then Finite 1500 else NaN)
     ([ChangeAmount ''1500.00'', ChangeName ''John Doe'', ChangeTaxid ''ab123456c'',
      SelectNationality ''american'', ChangeEmail ''john@x.com''] @ [Submit])) (Settle Rejected))"
proof -
  have h: "outstanding (run (\<lambda>s. if s = ''1500.00'' then Finite 1500 else NaN)
     ([ChangeAmount ''1500.00'', ChangeName ''John Doe'', ChangeTaxid ''ab123456c'',
      SelectNationality ''american'', ChangeEmail ''john@x.com''] @ [Submit])) \<noteq> []" by code_simp
  from isSubmitting_false_after_settle[of "(run (\<lambda>s. if s = ''1500.00'' then Finite 1500 else NaN)
     ([ChangeAmount ''1500.00'', ChangeName ''John Doe'', ChangeTaxid ''ab123456c'',
      SelectNationality ''american'', ChangeEmail ''john@x.com''] @ [Submit]))" "\<lambda>s. if s = ''1500.00'' then Finite 1500 else NaN" Rejected "[]"] h
  show ?thesis by blast
qed

end
